theory Spec2Isabelle
  imports Main "HOL-Library.Word" "HOL-Library.Sublist"
begin

section \<open>JavaScript strings\<close>

text \<open>
  A JavaScript string is a sequence of UTF-16 code units. The terminal panel
  (\<^verbatim>\<open>gitforge/src/components/TerminalPanel.vue\<close>) only trims strings, tests a
  prefix and concatenates, so a string is modelled as the list of its code units.
  \<open>js\<close> writes an ASCII literal of the source as such a list.
\<close>

type_synonym code_unit = "16 word"
type_synonym jstring = "code_unit list"

definition js :: "string \<Rightarrow> jstring" where
  "js s = map of_char s"

text \<open>
  \<^verbatim>\<open>String.prototype.trim\<close> removes leading and trailing WhiteSpace and
  LineTerminator code points (ECMAScript, StrWhiteSpaceChar): TAB, LF, VT, FF, CR, SP,
  NBSP, U+1680, U+2000 to U+200A, LS, PS, U+202F, U+205F, U+3000 and the BOM U+FEFF.
  All of them are single code units.
\<close>

definition is_js_whitespace :: "code_unit \<Rightarrow> bool" where
  "is_js_whitespace c \<longleftrightarrow>
     c = 0x0009 \<or> c = 0x000A \<or> c = 0x000B \<or> c = 0x000C \<or> c = 0x000D \<or> c = 0x0020 \<or>
     c = 0x00A0 \<or> c = 0x1680 \<or> (0x2000 \<le> c \<and> c \<le> 0x200A) \<or>
     c = 0x2028 \<or> c = 0x2029 \<or> c = 0x202F \<or> c = 0x205F \<or> c = 0x3000 \<or> c = 0xFEFF"

definition trim :: "jstring \<Rightarrow> jstring" where
  "trim s = rev (dropWhile is_js_whitespace (rev (dropWhile is_js_whitespace s)))"

text \<open>\<^verbatim>\<open>s.startsWith(p)\<close>: the first \<open>length p\<close> code units of \<open>s\<close> are \<open>p\<close>.\<close>

definition startsWith :: "jstring \<Rightarrow> jstring \<Rightarrow> bool" where
  "startsWith s p \<longleftrightarrow> take (length p) s = p"

section \<open>The terminal panel\<close>

text \<open>
  The component's state is its four refs:
  \<^verbatim>\<open>
  const isListening = ref(false)
  const activeAgent = ref('local')
  const inputLine = ref('')
  const output = ref(['GitForge Terminal Terminator ready'])
  \<close>
  The ref \<^verbatim>\<open>output\<close> is the field \<open>output_lines\<close>: \<^verbatim>\<open>output\<close> is a keyword of
  Isabelle.
\<close>

record panel =
  isListening :: bool
  activeAgent :: jstring
  inputLine :: jstring
  output_lines :: "jstring list"

definition initial_panel :: panel where
  "initial_panel =
     \<lparr>isListening = False, activeAgent = js ''local'', inputLine = [],
      output_lines = [js ''GitForge Terminal Terminator ready'']\<rparr>"

text \<open>
  \<^verbatim>\<open>xs.slice(-120)\<close>: the elements from index \<open>max (length xs - 120) 0\<close> to the end;
  the subtraction on \<open>nat\<close> stops at 0 as \<open>max\<close> does.
\<close>

definition slice_last :: "nat \<Rightarrow> 'a list \<Rightarrow> 'a list" where
  "slice_last n xs = drop (length xs - n) xs"

text \<open>
  \<^verbatim>\<open>
  const append = (line) => {
    output.value = [...output.value.slice(-120), line]
  }
  \<close>
\<close>

definition append :: "jstring \<Rightarrow> panel \<Rightarrow> panel" where
  "append line p = p\<lparr>output_lines := slice_last 120 (output_lines p) @ [line]\<rparr>"

text \<open>
  \<^verbatim>\<open>
  const toggleVoice = () => {
    isListening.value = !isListening.value
    append(isListening.value ? '(U+1F534) Voice capture enabled' : '(U+1F507) Voice capture disabled')
  }
  \<close>
  The two emoji are written as their surrogate pairs.
\<close>

definition toggleVoice :: "panel \<Rightarrow> panel" where
  "toggleVoice p =
     (let p1 = p\<lparr>isListening := \<not> isListening p\<rparr>
      in append (if isListening p1
                 then [0xD83D, 0xDD34] @ js '' Voice capture enabled''
                 else [0xD83D, 0xDD07] @ js '' Voice capture disabled'') p1)"

text \<open>
  The two route lines of \<open>sendCommand\<close>, template literals over \<open>activeAgent.value\<close>:
  \<^verbatim>\<open>`(U+26A1) libgit2 route queued via MCP (${activeAgent.value})`\<close> and
  \<^verbatim>\<open>`(U+1F916) agent(${activeAgent.value}) route queued via MCP`\<close>.
\<close>

definition git_route_line :: "jstring \<Rightarrow> jstring" where
  "git_route_line agent = [0x26A1] @ js '' libgit2 route queued via MCP ('' @ agent @ js '')''"

definition agent_route_line :: "jstring \<Rightarrow> jstring" where
  "agent_route_line agent = [0xD83E, 0xDD16] @ js '' agent('' @ agent @ js '') route queued via MCP''"

text \<open>
  \<^verbatim>\<open>
  const sendCommand = () => {
    const cmd = inputLine.value.trim()
    if (!cmd) {
      return
    }
    append(`$ ${cmd}`)
    if (cmd.startsWith('git ')) {
      append(git route line)
    } else {
      append(agent route line)
    }
    inputLine.value = ''
  }
  \<close>
  A string is falsy exactly when it is empty.
\<close>

definition sendCommand :: "panel \<Rightarrow> panel" where
  "sendCommand p =
     (let cmd = trim (inputLine p) in
      if cmd = [] then p
      else
        let p1 = append (js ''$ '' @ cmd) p;
            p2 = (if startsWith cmd (js ''git '')
                  then append (git_route_line (activeAgent p1)) p1
                  else append (agent_route_line (activeAgent p1)) p1)
        in p2\<lparr>inputLine := []\<rparr>)"

text \<open>
  What a user can do to the panel: the two \<^verbatim>\<open>v-model\<close> bindings of the template
  write \<open>activeAgent\<close> (the select) and \<open>inputLine\<close> (the input), the voice button
  calls \<open>toggleVoice\<close> and Enter in the input calls \<open>sendCommand\<close>.
\<close>

datatype action = SelectAgent jstring | TypeInput jstring | ClickVoice | PressEnter

fun perform :: "action \<Rightarrow> panel \<Rightarrow> panel" where
  "perform (SelectAgent a) p = p\<lparr>activeAgent := a\<rparr>"
| "perform (TypeInput s) p = p\<lparr>inputLine := s\<rparr>"
| "perform ClickVoice p = toggleVoice p"
| "perform PressEnter p = sendCommand p"

fun run_actions :: "action list \<Rightarrow> panel \<Rightarrow> panel" where
  "run_actions [] p = p"
| "run_actions (a # as) p = run_actions as (perform a p)"

section \<open>The core engine (ant-core)\<close>

text \<open>
  \<^verbatim>\<open>gitforge/ant-core/README.md\<close> names the engine's stable API (\<^verbatim>\<open>create_goal\<close>,
  \<^verbatim>\<open>subscribe_events\<close>, \<^verbatim>\<open>get_goal_status\<close>, \<^verbatim>\<open>cancel_goal\<close>) and the rules of event
  versioning; the engine's code is not among the sources. The README gives the constant:
  "Current schema version: v1 (\<^verbatim>\<open>SYSTEM_EVENT_SCHEMA_VERSION = 1\<close>)".
\<close>

definition SYSTEM_EVENT_SCHEMA_VERSION :: int where
  "SYSTEM_EVENT_SCHEMA_VERSION = 1"

subsection \<open>Data model\<close>

text \<open>
  Modelled from the spec: the data model of section 3 (the engine's types are not in the
  sources). A goal's status is "one of Pending, Running, Completed, Failed, Cancelled";
  its task holds the "backend kind (git | agent), agent identifier when applicable, raw
  command text, arguments derived from parsing"; the result is "present only when
  Completed/Failed".
\<close>

datatype goal_status = Pending | Running | Completed | Failed | Cancelled

datatype backend_kind = Git | Agent

record task_descriptor =
  kind :: backend_kind
  agent_identifier :: "string option"
  command_text :: string
  arguments :: string

record goal =
  goal_id :: nat
  task :: task_descriptor
  status :: goal_status
  created_at :: nat
  updated_at :: nat
  result :: "string option"

text \<open>
  Modelled from the spec: a SystemEvent (section 3; the type is not in the sources) has a
  \<open>schema_version\<close> ("integer, currently 1"), the subject goal ("or absent for
  engine-wide events", the spec's field \<open>goal_id\<close>), a variant (the six named ones
  "plus future additive variants") and a payload of "variant-specific structured data",
  here a list of named fields, so that an event can carry a variant and fields its
  consumer has never heard of.
\<close>

datatype event_variant =
  GoalCreated | GoalStarted | GoalProgress | GoalCompleted | GoalFailed | GoalCancelled
  | FutureVariant string

record system_event =
  schema_version :: int
  subject_goal :: "nat option"
  variant :: event_variant
  payload :: "(string \<times> string) list"

text \<open>Modelled from the spec: the error taxonomy of section 7 (not in the sources).\<close>

datatype engine_error =
  NotFound | Conflict | InvalidTransition | SchemaVersionMismatch | BackendFailure

subsection \<open>Event schema\<close>

text \<open>
  Modelled from the spec: the validation function of section 4.1 (not in the sources),
  "given a raw event and a consumer's supported major version, returns accept/reject:
  reject only on major-version mismatch, never on unknown variant or unknown field".
\<close>

datatype validation = Accept | Reject engine_error

definition validate_event :: "system_event \<Rightarrow> int \<Rightarrow> validation" where
  "validate_event ev supported_major =
     (if schema_version ev = supported_major then Accept else Reject SchemaVersionMismatch)"

text \<open>
  Modelled from the spec: a consumer of events (section 3, schema compatibility; not in
  the sources) is built against a major version and a set of variants it knows;
  "unknown variants are ignored, not treated as errors".
\<close>

datatype consumed = Processed | Ignored | Refused engine_error

definition consume :: "int \<Rightarrow> event_variant list \<Rightarrow> system_event \<Rightarrow> consumed" where
  "consume supported_major known ev =
     (case validate_event ev supported_major of
        Reject e \<Rightarrow> Refused e
      | Accept \<Rightarrow> if variant ev \<in> set known then Processed else Ignored)"

subsection \<open>Goal store\<close>

text \<open>
  Modelled from the spec: the state machine of section 4.2 (not in the sources),
  "Pending --start--> Running --complete--> Completed; Running --fail--> Failed;
  {Pending,Running} --cancel--> Cancelled. No transition is permitted out of a terminal
  state."
\<close>

fun allowed :: "goal_status \<Rightarrow> goal_status \<Rightarrow> bool" where
  "allowed Pending Running = True"
| "allowed Running Completed = True"
| "allowed Running Failed = True"
| "allowed Pending Cancelled = True"
| "allowed Running Cancelled = True"
| "allowed _ _ = False"

fun is_terminal :: "goal_status \<Rightarrow> bool" where
  "is_terminal Completed = True"
| "is_terminal Failed = True"
| "is_terminal Cancelled = True"
| "is_terminal _ = False"

text \<open>
  Modelled from the spec: the engine's state (sections 2 and 4; not in the sources): the
  goal store, "exactly one goal per goal_id"; the events emitted so far, in the order
  of emission, which is the order every subscriber sees; the identifier counter; and the
  cancellation signals of section 5 ("a flag/token associated with a goal", section 9).
  The spec leaves the identifier scheme open; a counter that stays above every stored
  identifier is used.
\<close>

record engine =
  goals :: "nat \<rightharpoonup> goal"
  next_id :: nat
  emitted :: "system_event list"
  cancel_requested :: "nat set"

definition empty_engine :: engine where
  "empty_engine = \<lparr>goals = Map.empty, next_id = 0, emitted = [], cancel_requested = {}\<rparr>"

text \<open>
  Modelled from the spec: every event the engine emits carries the current schema
  version (section 6: "every SystemEvent carries schema_version (currently 1)").
\<close>

definition emit :: "event_variant \<Rightarrow> nat \<Rightarrow> (string \<times> string) list \<Rightarrow> engine \<Rightarrow> engine" where
  "emit v gid data s =
     s\<lparr>emitted := emitted s @
          [\<lparr>schema_version = SYSTEM_EVENT_SCHEMA_VERSION, subject_goal = Some gid,
            variant = v, payload = data\<rparr>]\<rparr>"

text \<open>
  Modelled from the spec: \<open>insert(task) -> goal_id\<close> of section 4.2 (not in the
  sources), "allocates identifier, stores goal as Pending, emits GoalCreated". The
  storing is \<open>store_pending\<close>, shared with \<open>create_goal\<close>.
\<close>

definition store_pending :: "nat \<Rightarrow> nat \<Rightarrow> task_descriptor \<Rightarrow> engine \<Rightarrow> engine" where
  "store_pending gid now t s =
     emit GoalCreated gid []
       (s\<lparr>goals := (goals s)(gid \<mapsto>
              \<lparr>goal_id = gid, task = t, status = Pending, created_at = now,
               updated_at = now, result = None\<rparr>),
          next_id := max (next_id s) (Suc gid)\<rparr>)"

definition insert_goal :: "nat \<Rightarrow> task_descriptor \<Rightarrow> engine \<Rightarrow> nat \<times> engine" where
  "insert_goal now t s = (next_id s, store_pending (next_id s) now t s)"

text \<open>
  Modelled from the spec: \<open>transition(goal_id, new_status, result?) -> ok | NotFound |
  InvalidTransition\<close> of section 4.2 (not in the sources), which "enforces the state
  machine above; emits the matching event on success". The result is kept only with
  Completed and Failed.
\<close>

fun matching_event :: "goal_status \<Rightarrow> event_variant" where
  "matching_event Pending = GoalCreated"
| "matching_event Running = GoalStarted"
| "matching_event Completed = GoalCompleted"
| "matching_event Failed = GoalFailed"
| "matching_event Cancelled = GoalCancelled"

definition result_fields :: "string option \<Rightarrow> (string \<times> string) list" where
  "result_fields r = (case r of None \<Rightarrow> [] | Some detail \<Rightarrow> [(''result'', detail)])"

definition transition ::
    "nat \<Rightarrow> nat \<Rightarrow> goal_status \<Rightarrow> string option \<Rightarrow> engine \<Rightarrow> (engine_error + unit) \<times> engine" where
  "transition now gid new_status res s =
     (case goals s gid of
        None \<Rightarrow> (Inl NotFound, s)
      | Some g \<Rightarrow>
          if allowed (status g) new_status then
            let kept = (if new_status = Completed \<or> new_status = Failed then res else None)
            in (Inr (),
                emit (matching_event new_status) gid (result_fields kept)
                  (s\<lparr>goals := (goals s)(gid \<mapsto>
                        g\<lparr>status := new_status, updated_at := now, result := kept\<rparr>)\<rparr>))
          else (Inl InvalidTransition, s))"

text \<open>Modelled from the spec: \<open>get(goal_id) -> Goal | NotFound\<close> (section 4.2).\<close>

definition get_goal :: "nat \<Rightarrow> engine \<Rightarrow> engine_error + goal" where
  "get_goal gid s = (case goals s gid of None \<Rightarrow> Inl NotFound | Some g \<Rightarrow> Inr g)"

subsection \<open>Core engine facade\<close>

text \<open>
  Modelled from the spec: \<open>create_goal(goal_id?, task) -> goal_id\<close> of section 4.5
  (not in the sources): "if a caller-supplied identifier collides with an existing
  goal, fails with Conflict; otherwise behaves as Goal Store insert".
\<close>

definition create_goal ::
    "nat \<Rightarrow> nat option \<Rightarrow> task_descriptor \<Rightarrow> engine \<Rightarrow> (engine_error + nat) \<times> engine" where
  "create_goal now requested t s =
     (case requested of
        None \<Rightarrow> (case insert_goal now t s of (gid, s') \<Rightarrow> (Inr gid, s'))
      | Some gid \<Rightarrow>
          if goals s gid \<noteq> None then (Inl Conflict, s)
          else (Inr gid, store_pending gid now t s))"

text \<open>Modelled from the spec: \<open>get_goal_status(goal_id) -> Goal snapshot | NotFound\<close>.\<close>

definition get_goal_status :: "nat \<Rightarrow> engine \<Rightarrow> engine_error + goal" where
  "get_goal_status gid s = get_goal gid s"

text \<open>
  Modelled from the spec: \<open>cancel_goal(goal_id) -> GoalSnapshot | NotFound\<close> of sections
  4.5, 5 and 6 (not in the sources). "If the goal is already terminal, returns the
  existing terminal status without error". A goal still Pending goes "directly to
  Cancelled" (scenario D). For a Running goal the call "is a request": it raises the
  cancellation signal, and the backend "is expected to observe [it] at its next safe
  checkpoint and then report Cancelled via transition". The snapshot returned is the
  goal after the call.
\<close>

definition cancel_goal :: "nat \<Rightarrow> nat \<Rightarrow> engine \<Rightarrow> (engine_error + goal) \<times> engine" where
  "cancel_goal now gid s =
     (case goals s gid of
        None \<Rightarrow> (Inl NotFound, s)
      | Some g \<Rightarrow>
          if is_terminal (status g) then (Inr g, s)
          else if status g = Pending then
            (let s' = snd (transition now gid Cancelled None s) in (get_goal gid s', s'))
          else (Inr g, s\<lparr>cancel_requested := insert gid (cancel_requested s)\<rparr>))"

subsection \<open>Runs of the engine\<close>

text \<open>
  Modelled from the spec: the calls the engine receives (sections 2, 4.2 and 4.5; the
  engine is not in the sources), each with the time of the call where the call writes a
  timestamp: from callers of the facade (\<open>CreateGoal\<close>, \<open>CancelGoal\<close>,
  \<open>GetGoalStatus\<close>) and from the router and the backends, which report "through the
  Goal Store's transition operation" (\<open>InsertGoal\<close>, \<open>Transition\<close>). A run executes the
  calls one after the other: "all mutations to a single goal are serialized".
\<close>

datatype engine_call =
  CreateGoal nat "nat option" task_descriptor
  | InsertGoal nat task_descriptor
  | Transition nat nat goal_status "string option"
  | CancelGoal nat nat
  | GetGoalStatus nat

fun exec :: "engine_call \<Rightarrow> engine \<Rightarrow> engine" where
  "exec (CreateGoal now requested t) s = snd (create_goal now requested t s)"
| "exec (InsertGoal now t) s = snd (insert_goal now t s)"
| "exec (Transition now gid new_status res) s = snd (transition now gid new_status res s)"
| "exec (CancelGoal now gid) s = snd (cancel_goal now gid s)"
| "exec (GetGoalStatus gid) s = s"

fun run_engine :: "engine_call list \<Rightarrow> engine \<Rightarrow> engine" where
  "run_engine [] s = s"
| "run_engine (c # cs) s = run_engine cs (exec c s)"

text \<open>
  Modelled from the spec: the statuses of a goal as a subscriber observes them (sections
  5 and 8; not in the sources): the status each lifecycle event of that goal announces,
  in the order of emission. Progress events and variants of the future announce no
  status.
\<close>

fun announced_status :: "event_variant \<Rightarrow> goal_status option" where
  "announced_status GoalCreated = Some Pending"
| "announced_status GoalStarted = Some Running"
| "announced_status GoalCompleted = Some Completed"
| "announced_status GoalFailed = Some Failed"
| "announced_status GoalCancelled = Some Cancelled"
| "announced_status GoalProgress = None"
| "announced_status (FutureVariant _) = None"

definition observed_statuses :: "nat \<Rightarrow> system_event list \<Rightarrow> goal_status list" where
  "observed_statuses gid evs =
     List.map_filter
       (\<lambda>ev. if subject_goal ev = Some gid then announced_status (variant ev) else None) evs"

text \<open>
  Modelled from the spec: the six status sequences that start at Pending and follow the
  state machine of section 4.2, and the empty one for a goal that was never created.
\<close>

definition goal_lifecycles :: "goal_status list list" where
  "goal_lifecycles =
     [[], [Pending], [Pending, Running], [Pending, Cancelled],
      [Pending, Running, Completed], [Pending, Running, Failed],
      [Pending, Running, Cancelled]]"

text \<open>
  The invariant of the modelled engine, used in the proofs: every stored goal lies below
  the identifier counter and carries its own identifier, its observed statuses are a
  path of the state machine that starts at Pending and ends at the stored status, and a
  goal that is not stored has no observed status.
\<close>

definition path_to :: "goal_status \<Rightarrow> goal_status list \<Rightarrow> bool" where
  "path_to st obs \<longleftrightarrow>
     obs \<noteq> [] \<and> hd obs = Pending \<and> last obs = st \<and> successively allowed obs"

definition engine_inv :: "engine \<Rightarrow> bool" where
  "engine_inv s \<longleftrightarrow>
     (\<forall>gid. case goals s gid of
        None \<Rightarrow> observed_statuses gid (emitted s) = []
      | Some g \<Rightarrow> gid < next_id s \<and> goal_id g = gid \<and>
          path_to (status g) (observed_statuses gid (emitted s)))"

section \<open>Facts about the panel operations\<close>

lemma length_slice_last: "length (slice_last n xs) = min n (length xs)"
  by (simp add: slice_last_def)

lemma suffix_slice_last: "suffix (slice_last n xs) xs"
  by (simp add: slice_last_def suffix_drop)

lemma slice_last_short: "length xs \<le> n \<Longrightarrow> slice_last n xs = xs"
  by (simp add: slice_last_def)

lemma slice_last_snoc: "slice_last (Suc n) (xs @ [a]) = slice_last n xs @ [a]"
  by (simp add: slice_last_def)

lemma slice_last_slice_last:
  assumes "m \<le> n"
  shows "slice_last m (slice_last n xs) = slice_last m xs"
proof -
  have "length xs - n + (length xs - (length xs - n) - m) = length xs - m"
    using assms by arith
  then show ?thesis
    by (simp add: slice_last_def add.commute)
qed

lemma slice_last_twice:
  "slice_last 120 (slice_last 120 xs @ [a]) = slice_last 119 xs @ [a]"
proof -
  have "slice_last (Suc 119) (slice_last 120 xs @ [a]) = slice_last 119 (slice_last 120 xs) @ [a]"
    by (rule slice_last_snoc)
  then show ?thesis
    by (simp add: slice_last_slice_last)
qed

lemma output_lines_append:
  "output_lines (append l p) = slice_last 120 (output_lines p) @ [l]"
  by (simp add: append_def)

lemma length_output_lines_append:
  "length (output_lines (append l p)) = min 120 (length (output_lines p)) + 1"
  by (simp add: output_lines_append length_slice_last)

lemma trim_Nil_iff: "trim s = [] \<longleftrightarrow> list_all is_js_whitespace s"
proof
  assume "trim s = []"
  then have all: "\<forall>c \<in> set (dropWhile is_js_whitespace s). is_js_whitespace c"
    by (simp add: trim_def dropWhile_eq_Nil_conv)
  have "dropWhile is_js_whitespace s = []"
  proof (rule ccontr)
    assume ne: "dropWhile is_js_whitespace s \<noteq> []"
    then have "\<not> is_js_whitespace (hd (dropWhile is_js_whitespace s))"
      by (rule hd_dropWhile)
    moreover from ne have "hd (dropWhile is_js_whitespace s) \<in> set (dropWhile is_js_whitespace s)"
      by (rule hd_in_set)
    ultimately show False using all by blast
  qed
  then show "list_all is_js_whitespace s"
    by (simp add: dropWhile_eq_Nil_conv list_all_iff)
next
  assume "list_all is_js_whitespace s"
  then have "dropWhile is_js_whitespace s = []"
    by (simp add: dropWhile_eq_Nil_conv list_all_iff)
  then show "trim s = []"
    by (simp add: trim_def del: dropWhile_eq_Nil_conv)
qed

lemma sendCommand_reject: "trim (inputLine p) = [] \<Longrightarrow> sendCommand p = p"
  by (simp add: sendCommand_def)

lemma sendCommand_accept:
  assumes "trim (inputLine p) \<noteq> []"
  shows "sendCommand p =
    p\<lparr>output_lines := slice_last 119 (output_lines p) @
         [js ''$ '' @ trim (inputLine p),
          if startsWith (trim (inputLine p)) (js ''git '')
          then git_route_line (activeAgent p) else agent_route_line (activeAgent p)],
      inputLine := []\<rparr>"
  using assms by (simp add: sendCommand_def Let_def append_def slice_last_twice)

lemma route_lines_differ: "git_route_line a \<noteq> agent_route_line b"
  by (simp add: git_route_line_def agent_route_line_def)

lemmas panel_eval =
  sendCommand_def append_def slice_last_def trim_def js_def is_js_whitespace_def
  startsWith_def git_route_line_def agent_route_line_def Let_def

lemma toggleVoice_output_bound: "length (output_lines (toggleVoice p)) \<le> 121"
  by (simp add: toggleVoice_def Let_def length_output_lines_append)

lemma sendCommand_output_bound:
  "length (output_lines p) \<le> 121 \<Longrightarrow> length (output_lines (sendCommand p)) \<le> 121"
  by (cases "trim (inputLine p) = []")
    (simp_all add: sendCommand_reject sendCommand_accept length_slice_last)

lemma perform_output_bound:
  "length (output_lines p) \<le> 121 \<Longrightarrow> length (output_lines (perform a p)) \<le> 121"
  by (cases a) (simp_all add: toggleVoice_output_bound sendCommand_output_bound)

lemma run_actions_output_bound:
  "length (output_lines p) \<le> 121 \<Longrightarrow> length (output_lines (run_actions as p)) \<le> 121"
  by (induction as arbitrary: p) (simp_all add: perform_output_bound)

section \<open>Facts about the engine\<close>

lemma observed_statuses_Nil: "observed_statuses gid [] = []"
  by (simp add: observed_statuses_def)

lemma observed_statuses_append:
  "observed_statuses gid (xs @ ys) = observed_statuses gid xs @ observed_statuses gid ys"
  by (simp add: observed_statuses_def map_filter_def)

lemma observed_statuses_single:
  "observed_statuses gid [ev] =
     (if subject_goal ev = Some gid
      then (case announced_status (variant ev) of None \<Rightarrow> [] | Some st \<Rightarrow> [st]) else [])"
  by (simp add: observed_statuses_def map_filter_def split: option.splits)

lemma announced_matching: "announced_status (matching_event st) = Some st"
  by (cases st) simp_all

lemma observed_statuses_emit:
  "observed_statuses gid (emitted (emit v gid' data s)) =
     observed_statuses gid (emitted s) @
       (if gid' = gid then (case announced_status v of None \<Rightarrow> [] | Some st \<Rightarrow> [st]) else [])"
  by (simp add: emit_def observed_statuses_append observed_statuses_single)

lemma emit_fields:
  "goals (emit v gid data s) = goals s"
  "next_id (emit v gid data s) = next_id s"
  "cancel_requested (emit v gid data s) = cancel_requested s"
  by (simp_all add: emit_def)

lemma terminal_no_successor: "is_terminal x \<Longrightarrow> \<not> allowed x y"
  by (cases x; cases y) simp_all

lemma allowed_cases:
  "allowed x y \<longleftrightarrow>
     (x = Pending \<and> (y = Running \<or> y = Cancelled)) \<or>
     (x = Running \<and> (y = Completed \<or> y = Failed \<or> y = Cancelled))"
  by (cases x; cases y) simp_all

lemma path_to_start: "path_to Pending [Pending]"
  by (simp add: path_to_def)

lemma path_to_step:
  assumes "path_to st obs" and "allowed st st'"
  shows "path_to st' (obs @ [st'])"
  using assms by (auto simp add: path_to_def successively_append_iff)

lemma path_to_lifecycle:
  assumes "path_to st obs"
  shows "obs \<in> set goal_lifecycles"
proof -
  from assms obtain rest where obs: "obs = Pending # rest" and succ: "successively allowed obs"
    by (cases obs) (auto simp add: path_to_def)
  show ?thesis
  proof (cases rest)
    case Nil
    with obs show ?thesis by (simp add: goal_lifecycles_def)
  next
    case (Cons y ys)
    note rest = Cons
    with obs succ have y: "y = Running \<or> y = Cancelled" and ys: "successively allowed (y # ys)"
      by (simp_all add: allowed_cases)
    show ?thesis
    proof (cases ys)
      case Nil
      with obs rest y show ?thesis by (auto simp add: goal_lifecycles_def)
    next
      case (Cons z zs)
      note ys_eq = Cons
      with ys have yz: "allowed y z" and zs: "successively allowed (z # zs)"
        by simp_all
      from yz y have yR: "y = Running" and z: "z = Completed \<or> z = Failed \<or> z = Cancelled"
        by (auto simp add: allowed_cases)
      have "zs = []"
      proof (cases zs)
        case Nil
        then show ?thesis .
      next
        case (Cons w ws)
        with zs have "allowed z w" by simp
        with z show ?thesis by (auto simp add: allowed_cases)
      qed
      with obs rest ys_eq yR z show ?thesis
        by (auto simp add: goal_lifecycles_def)
    qed
  qed
qed

lemma engine_inv_empty: "engine_inv empty_engine"
  by (simp add: engine_inv_def empty_engine_def observed_statuses_Nil)

lemma engine_inv_absent:
  "engine_inv s \<Longrightarrow> goals s gid = None \<Longrightarrow> observed_statuses gid (emitted s) = []"
  unfolding engine_inv_def by (drule spec [of _ gid]) simp

lemma engine_inv_present:
  "engine_inv s \<Longrightarrow> goals s gid = Some g \<Longrightarrow>
     gid < next_id s \<and> goal_id g = gid \<and> path_to (status g) (observed_statuses gid (emitted s))"
  unfolding engine_inv_def by (drule spec [of _ gid]) simp

lemma engine_inv_fresh: "engine_inv s \<Longrightarrow> goals s (next_id s) = None"
  by (cases "goals s (next_id s)") (auto dest: engine_inv_present)

lemma engine_inv_store_pending:
  assumes inv: "engine_inv s" and absent: "goals s gid = None"
  shows "engine_inv (store_pending gid now t s)"
  unfolding engine_inv_def
proof
  fix k
  show "case goals (store_pending gid now t s) k of
      None \<Rightarrow> observed_statuses k (emitted (store_pending gid now t s)) = []
    | Some g \<Rightarrow> k < next_id (store_pending gid now t s) \<and> goal_id g = k \<and>
        path_to (status g) (observed_statuses k (emitted (store_pending gid now t s)))"
  proof (cases "k = gid")
    case True
    with engine_inv_absent [OF inv absent] show ?thesis
      by (simp add: store_pending_def observed_statuses_emit emit_fields path_to_start)
  next
    case False
    show ?thesis
    proof (cases "goals s k")
      case None
      with False engine_inv_absent [OF inv None] show ?thesis
        by (simp add: store_pending_def observed_statuses_emit emit_fields)
    next
      case (Some g)
      with False engine_inv_present [OF inv Some] show ?thesis
        by (simp add: store_pending_def observed_statuses_emit emit_fields less_max_iff_disj)
    qed
  qed
qed

lemma engine_inv_transition:
  assumes inv: "engine_inv s"
  shows "engine_inv (snd (transition now gid new_status res s))"
proof (cases "goals s gid")
  case None
  with inv show ?thesis by (simp add: transition_def)
next
  case (Some g)
  show ?thesis
  proof (cases "allowed (status g) new_status")
    case False
    with Some inv show ?thesis by (simp add: transition_def)
  next
    case True
    from engine_inv_present [OF inv Some]
    have lt: "gid < next_id s" and id: "goal_id g = gid"
      and path: "path_to (status g) (observed_statuses gid (emitted s))"
      by simp_all
    from path_to_step [OF path True]
    have path': "path_to new_status (observed_statuses gid (emitted s) @ [new_status])" .
    show ?thesis
      unfolding engine_inv_def
    proof
      fix k
      show "case goals (snd (transition now gid new_status res s)) k of
          None \<Rightarrow> observed_statuses k (emitted (snd (transition now gid new_status res s))) = []
        | Some g' \<Rightarrow> k < next_id (snd (transition now gid new_status res s)) \<and> goal_id g' = k \<and>
            path_to (status g')
              (observed_statuses k (emitted (snd (transition now gid new_status res s))))"
      proof (cases "k = gid")
        case True
        with Some \<open>allowed (status g) new_status\<close> lt id path' show ?thesis
          by (simp add: transition_def Let_def observed_statuses_emit emit_fields
              announced_matching)
      next
        case False
        show ?thesis
        proof (cases "goals s k")
          case None
          with False Some \<open>allowed (status g) new_status\<close> engine_inv_absent [OF inv None]
          show ?thesis
            by (simp add: transition_def Let_def observed_statuses_emit emit_fields)
        next
          case (Some h)
          with False \<open>goals s gid = Some g\<close> \<open>allowed (status g) new_status\<close>
            engine_inv_present [OF inv Some]
          show ?thesis
            by (simp add: transition_def Let_def observed_statuses_emit emit_fields)
        qed
      qed
    qed
  qed
qed

lemma engine_inv_cancel_requested:
  "engine_inv s \<Longrightarrow> engine_inv (s\<lparr>cancel_requested := X\<rparr>)"
  by (simp add: engine_inv_def cong: option.case_cong)

lemma engine_inv_cancel_goal:
  assumes inv: "engine_inv s"
  shows "engine_inv (snd (cancel_goal now gid s))"
proof (cases "goals s gid")
  case None
  with inv show ?thesis by (simp add: cancel_goal_def)
next
  case (Some g)
  with inv engine_inv_transition [OF inv, of now gid Cancelled None]
    engine_inv_cancel_requested [OF inv]
  show ?thesis
    by (simp add: cancel_goal_def Let_def)
qed

lemma engine_inv_create_goal:
  assumes inv: "engine_inv s"
  shows "engine_inv (snd (create_goal now requested t s))"
proof (cases requested)
  case None
  with engine_inv_store_pending [OF inv engine_inv_fresh [OF inv]] show ?thesis
    by (simp add: create_goal_def insert_goal_def)
next
  case (Some gid)
  show ?thesis
  proof (cases "goals s gid")
    case None
    with Some engine_inv_store_pending [OF inv None] show ?thesis
      by (simp add: create_goal_def)
  next
    case (Some g)
    with \<open>requested = Some gid\<close> inv show ?thesis
      by (simp add: create_goal_def)
  qed
qed

lemma engine_inv_exec: "engine_inv s \<Longrightarrow> engine_inv (exec c s)"
proof (cases c)
  case (InsertGoal now t)
  assume "engine_inv s"
  from engine_inv_store_pending [OF this engine_inv_fresh [OF this]] InsertGoal show ?thesis
    by (simp add: insert_goal_def)
qed (simp_all add: engine_inv_create_goal engine_inv_transition engine_inv_cancel_goal)

lemma engine_inv_run: "engine_inv s \<Longrightarrow> engine_inv (run_engine cs s)"
  by (induction cs arbitrary: s) (simp_all add: engine_inv_exec)

lemma engine_inv_lifecycle:
  assumes "engine_inv s"
  shows "observed_statuses gid (emitted s) \<in> set goal_lifecycles"
proof (cases "goals s gid")
  case None
  with engine_inv_absent [OF assms None] show ?thesis
    by (simp add: goal_lifecycles_def)
next
  case (Some g)
  from engine_inv_present [OF assms Some] show ?thesis
    by (auto intro: path_to_lifecycle)
qed

lemma lifecycle_facts:
  assumes "obs \<in> set goal_lifecycles"
  shows "successively allowed obs"
    and "count_list obs Pending \<le> 1"
    and "obs \<noteq> [] \<longrightarrow> hd obs = Pending"
    and "length (filter is_terminal obs) \<le> 1"
    and "list_all (\<lambda>st. \<not> is_terminal st) (butlast obs)"
    and "\<not> (Cancelled \<in> set obs \<and> Completed \<in> set obs)"
  using assms by (auto simp add: goal_lifecycles_def)

lemma transition_from_terminal:
  assumes "goals s gid = Some g" and "is_terminal (status g)"
  shows "transition now gid new_status res s = (Inl InvalidTransition, s)"
  using assms by (simp add: transition_def terminal_no_successor)

lemmas engine_eval =
  create_goal_def insert_goal_def store_pending_def emit_def transition_def cancel_goal_def
  get_goal_def observed_statuses_def empty_engine_def result_fields_def
  SYSTEM_EVENT_SCHEMA_VERSION_def Let_def

lemma cancel_goal_terminal:
  assumes "goals s gid = Some g" and "is_terminal (status g)"
  shows "cancel_goal now gid s = (Inr g, s)"
  using assms by (simp add: cancel_goal_def)

lemma cancel_goal_twice:
  "cancel_goal later gid (snd (cancel_goal now gid s)) =
     (fst (cancel_goal now gid s), snd (cancel_goal now gid s))"
proof (cases "goals s gid")
  case None
  then show ?thesis by (simp add: cancel_goal_def)
next
  case (Some g)
  show ?thesis
  proof (cases "status g")
    case Pending
    with Some show ?thesis
      by (simp add: cancel_goal_def transition_def emit_def get_goal_def Let_def)
  next
    case Running
    with Some show ?thesis
      by (simp add: cancel_goal_def)
  qed (use Some in \<open>simp_all add: cancel_goal_def\<close>)
qed

lemma cancel_goal_forward:
  assumes "goals s gid = Some g"
  shows "\<exists>g'. goals (snd (cancel_goal now gid s)) gid = Some g' \<and>
           fst (cancel_goal now gid s) = Inr g' \<and>
           (status g' = status g \<or> allowed (status g) (status g')) \<and>
           (status g \<noteq> Running \<longrightarrow> is_terminal (status g'))"
  using assms
  by (cases "status g")
    (simp_all add: cancel_goal_def transition_def emit_def get_goal_def Let_def)

lemma versions_emit:
  "list_all (\<lambda>e. schema_version e = SYSTEM_EVENT_SCHEMA_VERSION) (emitted s) \<Longrightarrow>
   list_all (\<lambda>e. schema_version e = SYSTEM_EVENT_SCHEMA_VERSION) (emitted (emit v gid data s))"
  by (simp add: emit_def)

lemma versions_exec:
  assumes "list_all (\<lambda>e. schema_version e = SYSTEM_EVENT_SCHEMA_VERSION) (emitted s)"
  shows "list_all (\<lambda>e. schema_version e = SYSTEM_EVENT_SCHEMA_VERSION) (emitted (exec c s))"
  using assms
  by (cases c)
    (auto simp add: create_goal_def insert_goal_def store_pending_def transition_def
      cancel_goal_def emit_def Let_def split: option.splits)

lemma versions_run:
  "list_all (\<lambda>e. schema_version e = SYSTEM_EVENT_SCHEMA_VERSION) (emitted s) \<Longrightarrow>
   list_all (\<lambda>e. schema_version e = SYSTEM_EVENT_SCHEMA_VERSION) (emitted (run_engine cs s))"
  by (induction cs arbitrary: s) (simp_all add: versions_exec)

lemma versions_from_empty:
  "list_all (\<lambda>e. schema_version e = 1) (emitted (run_engine cs empty_engine))"
  using versions_run [of empty_engine cs]
  by (simp add: empty_engine_def SYSTEM_EVENT_SCHEMA_VERSION_def)

section \<open>The claims about the terminal panel\<close>

subsection \<open>C1: lines that start with \<open>git \<close>\<close>

text \<open>
  Claim C1, as the code has it. When the trimmed input starts with the four code units
  \<open>git \<close> (lower case, one space), \<open>sendCommand\<close> takes the Git branch: the output
  ends with the echo \<open>$ \<close> followed by the trimmed line and then the libgit2 route
  line, which names the selected agent; the input is cleared and the agent selection is
  untouched. The route line is a function of the selected agent alone: the code derives
  no arguments from the remainder of the line.
\<close>

theorem git_prefix_takes_git_route:
  assumes "startsWith (trim (inputLine p)) (js ''git '')"
  shows "output_lines (sendCommand p) =
           slice_last 119 (output_lines p) @
             [js ''$ '' @ trim (inputLine p), git_route_line (activeAgent p)] \<and>
         inputLine (sendCommand p) = [] \<and>
         activeAgent (sendCommand p) = activeAgent p \<and>
         isListening (sendCommand p) = isListening p"
proof -
  from assms have "trim (inputLine p) \<noteq> []"
    by (auto simp add: startsWith_def js_def)
  from sendCommand_accept [OF this] assms show ?thesis
    by simp
qed

theorem git_prefix_takes_git_route_witness:
  "startsWith (trim (js ''git status'')) (js ''git '') \<and>
   output_lines (sendCommand \<lparr>isListening = False, activeAgent = js ''claude'',
       inputLine = js ''git status'', output_lines = [js ''GitForge Terminal Terminator ready'']\<rparr>) =
     [js ''GitForge Terminal Terminator ready'', js ''$ git status'',
      0x26A1 # js '' libgit2 route queued via MCP (claude)'']"
  using git_prefix_takes_git_route [of "\<lparr>isListening = False, activeAgent = js ''claude'',
       inputLine = js ''git status'', output_lines = [js ''GitForge Terminal Terminator ready'']\<rparr>"]
  by (simp add: panel_eval)

theorem git_route_carries_no_arguments_counterexample:
  "last (output_lines (sendCommand \<lparr>isListening = False, activeAgent = js ''claude'',
       inputLine = js ''git status'', output_lines = []\<rparr>)) =
     0x26A1 # js '' libgit2 route queued via MCP (claude)'' \<and>
   last (output_lines (sendCommand \<lparr>isListening = False, activeAgent = js ''claude'',
       inputLine = js ''git log'', output_lines = []\<rparr>)) =
     0x26A1 # js '' libgit2 route queued via MCP (claude)'' \<and>
   drop 4 (trim (js ''git status'')) = js ''status'' \<and>
   drop 4 (trim (js ''git log'')) = js ''log'' \<and>
   js ''status'' \<noteq> js ''log''"
  by (simp add: panel_eval)

subsection \<open>C2: every other non-blank line\<close>

text \<open>
  Claim C2, as the code has it. When the trimmed input is not empty and does not start
  with \<open>git \<close>, \<open>sendCommand\<close> takes the agent branch: the output ends with the echo
  of the trimmed line and then the agent route line, whose agent identifier is the
  selected agent. The full trimmed line appears in the echo only; the route line is a
  function of the selected agent alone.
\<close>

theorem other_input_takes_agent_route:
  assumes "trim (inputLine p) \<noteq> []"
    and "\<not> startsWith (trim (inputLine p)) (js ''git '')"
  shows "output_lines (sendCommand p) =
           slice_last 119 (output_lines p) @
             [js ''$ '' @ trim (inputLine p), agent_route_line (activeAgent p)] \<and>
         inputLine (sendCommand p) = [] \<and>
         activeAgent (sendCommand p) = activeAgent p \<and>
         isListening (sendCommand p) = isListening p"
  using sendCommand_accept [OF assms(1)] assms(2) by simp

theorem other_input_takes_agent_route_witness:
  "trim (js ''explain this diff'') \<noteq> [] \<and>
   \<not> startsWith (trim (js ''explain this diff'')) (js ''git '') \<and>
   output_lines (sendCommand \<lparr>isListening = False, activeAgent = js ''claude'',
       inputLine = js ''explain this diff'',
       output_lines = [js ''GitForge Terminal Terminator ready'']\<rparr>) =
     [js ''GitForge Terminal Terminator ready'', js ''$ explain this diff'',
      [0xD83E, 0xDD16] @ js '' agent(claude) route queued via MCP'']"
  using other_input_takes_agent_route [of "\<lparr>isListening = False, activeAgent = js ''claude'',
       inputLine = js ''explain this diff'',
       output_lines = [js ''GitForge Terminal Terminator ready'']\<rparr>"]
  by (simp add: panel_eval)

theorem agent_route_carries_no_arguments_counterexample:
  "last (output_lines (sendCommand \<lparr>isListening = False, activeAgent = js ''claude'',
       inputLine = js ''explain this diff'', output_lines = []\<rparr>)) =
     [0xD83E, 0xDD16] @ js '' agent(claude) route queued via MCP'' \<and>
   last (output_lines (sendCommand \<lparr>isListening = False, activeAgent = js ''claude'',
       inputLine = js ''run the tests'', output_lines = []\<rparr>)) =
     [0xD83E, 0xDD16] @ js '' agent(claude) route queued via MCP'' \<and>
   trim (js ''explain this diff'') = js ''explain this diff'' \<and>
   trim (js ''run the tests'') = js ''run the tests'' \<and>
   js ''explain this diff'' \<noteq> js ''run the tests''"
  by (simp add: panel_eval)

subsection \<open>C3: blank input is rejected\<close>

text \<open>
  Claim C3. The trimmed input is empty exactly when every code unit of the input is
  white space (the empty input included), and then \<open>sendCommand\<close> returns at once:
  the whole state of the panel, its output among it, is what it was. The panel has no
  other state and \<open>sendCommand\<close> no other effect, so nothing is created or emitted.
\<close>

theorem sendCommand_rejects_blank:
  "(trim (inputLine p) = [] \<longleftrightarrow> list_all is_js_whitespace (inputLine p)) \<and>
   (trim (inputLine p) = [] \<longrightarrow> sendCommand p = p)"
  by (simp add: trim_Nil_iff sendCommand_reject)

theorem sendCommand_rejects_blank_witness:
  "trim (js ''   '') = [] \<and>
   sendCommand \<lparr>isListening = False, activeAgent = js ''claude'', inputLine = js ''   '',
       output_lines = [js ''GitForge Terminal Terminator ready'']\<rparr> =
     \<lparr>isListening = False, activeAgent = js ''claude'', inputLine = js ''   '',
       output_lines = [js ''GitForge Terminal Terminator ready'']\<rparr> \<and>
   sendCommand initial_panel = initial_panel"
  using sendCommand_rejects_blank [of "\<lparr>isListening = False, activeAgent = js ''claude'',
       inputLine = js ''   '', output_lines = [js ''GitForge Terminal Terminator ready'']\<rparr>"]
    sendCommand_rejects_blank [of initial_panel]
  by (simp add: trim_def js_def is_js_whitespace_def initial_panel_def)

subsection \<open>C4: the route depends on the text and the agent only\<close>

text \<open>
  Claim C4. Two runs of \<open>sendCommand\<close> on panels with the same input text and the same
  selected agent decide alike, whatever the rest of the state (the output so far, the
  voice flag): both reject and change nothing, or both append the same echo line and
  the same route line and clear the input.
\<close>

theorem routing_depends_only_on_text_and_agent:
  assumes "inputLine p = inputLine q" and "activeAgent p = activeAgent q"
  shows "(trim (inputLine p) = [] \<and> sendCommand p = p \<and> sendCommand q = q) \<or>
         (\<exists>echo route.
            output_lines (sendCommand p) = slice_last 119 (output_lines p) @ [echo, route] \<and>
            output_lines (sendCommand q) = slice_last 119 (output_lines q) @ [echo, route] \<and>
            inputLine (sendCommand p) = [] \<and> inputLine (sendCommand q) = [])"
proof (cases "trim (inputLine p) = []")
  case True
  with assms show ?thesis
    by (simp add: sendCommand_reject)
next
  case False
  with assms have "trim (inputLine q) \<noteq> []"
    by simp
  from sendCommand_accept [OF False] sendCommand_accept [OF this] assms show ?thesis
    by simp
qed

theorem routing_depends_only_on_text_and_agent_witness:
  "output_lines (sendCommand \<lparr>isListening = False, activeAgent = js ''claude'',
       inputLine = js ''git status'', output_lines = []\<rparr>) =
     [js ''$ git status'', 0x26A1 # js '' libgit2 route queued via MCP (claude)''] \<and>
   output_lines (sendCommand \<lparr>isListening = True, activeAgent = js ''claude'',
       inputLine = js ''git status'', output_lines = [js ''earlier line'']\<rparr>) =
     [js ''earlier line'', js ''$ git status'',
      0x26A1 # js '' libgit2 route queued via MCP (claude)'']"
  using routing_depends_only_on_text_and_agent [of
      "\<lparr>isListening = False, activeAgent = js ''claude'',
         inputLine = js ''git status'', output_lines = []\<rparr>"
      "\<lparr>isListening = True, activeAgent = js ''claude'',
         inputLine = js ''git status'', output_lines = [js ''earlier line'']\<rparr>"]
  by (simp add: panel_eval)

subsection \<open>C8: the output is bounded, oldest lines first to go\<close>

text \<open>
  Claim C8. After \<open>append\<close> the output has at most 121 lines: the new line, preceded
  by the last 120 (or all, when fewer) of the previous lines, as a suffix of the previous
  output and so in their order. Every action on the panel keeps the bound of 121 lines,
  and every state reached from the initial panel has it.
\<close>

theorem append_bounded_drop_oldest:
  "length (output_lines (append l p)) \<le> 121 \<and>
   (\<exists>kept. output_lines (append l p) = kept @ [l] \<and>
      suffix kept (output_lines p) \<and>
      length kept = min 120 (length (output_lines p))) \<and>
   (length (output_lines p) \<le> 121 \<longrightarrow> length (output_lines (perform a p)) \<le> 121) \<and>
   length (output_lines (run_actions as initial_panel)) \<le> 121"
proof -
  have "length (output_lines (append l p)) \<le> 121"
    by (simp add: length_output_lines_append)
  moreover have "\<exists>kept. output_lines (append l p) = kept @ [l] \<and>
      suffix kept (output_lines p) \<and> length kept = min 120 (length (output_lines p))"
    by (simp add: output_lines_append suffix_slice_last length_slice_last)
  moreover have "length (output_lines p) \<le> 121 \<longrightarrow> length (output_lines (perform a p)) \<le> 121"
    by (simp add: perform_output_bound)
  moreover have "length (output_lines (run_actions as initial_panel)) \<le> 121"
    by (rule run_actions_output_bound) (simp add: initial_panel_def)
  ultimately show ?thesis
    by blast
qed

theorem append_bounded_drop_oldest_witness:
  "output_lines (append (js ''new'') \<lparr>isListening = False, activeAgent = js ''local'',
       inputLine = [], output_lines = replicate 121 (js ''old'')\<rparr>) =
     replicate 120 (js ''old'') @ [js ''new''] \<and>
   length (replicate 121 (js ''old'')) \<le> 121 \<and>
   length (output_lines (perform ClickVoice \<lparr>isListening = False, activeAgent = js ''local'',
       inputLine = [], output_lines = replicate 121 (js ''old'')\<rparr>)) \<le> 121"
  using append_bounded_drop_oldest [of "js ''new''" "\<lparr>isListening = False,
       activeAgent = js ''local'', inputLine = [], output_lines = replicate 121 (js ''old'')\<rparr>"
       ClickVoice "[]"]
  by (simp add: append_def slice_last_def)

subsection \<open>C9: the input is cleared exactly on acceptance\<close>

text \<open>
  Claim C9. \<open>sendCommand\<close> sets the input line to the empty string when the trimmed
  input is not empty, and leaves the input line as it is (white space kept) when the
  trimmed input is empty. So for an input that is not already the empty string, the
  input is empty afterwards if and only if the trimmed input was not empty.
\<close>

theorem sendCommand_clears_input_iff_accepted:
  "(trim (inputLine p) \<noteq> [] \<longrightarrow> inputLine (sendCommand p) = []) \<and>
   (trim (inputLine p) = [] \<longrightarrow> inputLine (sendCommand p) = inputLine p) \<and>
   (inputLine p \<noteq> [] \<longrightarrow> (inputLine (sendCommand p) = [] \<longleftrightarrow> trim (inputLine p) \<noteq> []))"
  by (cases "trim (inputLine p) = []") (simp_all add: sendCommand_reject sendCommand_accept)

theorem sendCommand_clears_input_iff_accepted_witness:
  "trim (js '' ls '') \<noteq> [] \<and>
   inputLine (sendCommand \<lparr>isListening = False, activeAgent = js ''local'',
       inputLine = js '' ls '', output_lines = []\<rparr>) = [] \<and>
   trim (js ''  '') = [] \<and> js ''  '' \<noteq> [] \<and>
   inputLine (sendCommand \<lparr>isListening = False, activeAgent = js ''local'',
       inputLine = js ''  '', output_lines = []\<rparr>) = js ''  ''"
  using sendCommand_clears_input_iff_accepted [of "\<lparr>isListening = False,
       activeAgent = js ''local'', inputLine = js '' ls '', output_lines = []\<rparr>"]
    sendCommand_clears_input_iff_accepted [of "\<lparr>isListening = False,
       activeAgent = js ''local'', inputLine = js ''  '', output_lines = []\<rparr>"]
  by (simp add: trim_def js_def is_js_whitespace_def)

subsection \<open>C10: echo, then one route line\<close>

text \<open>
  Claim C10. For an accepted command the output afterwards is the last 119 (or all) of
  the previous lines, then the echo \<open>$ \<close> followed by the trimmed command, then one
  route line: the Git route line when the command starts with \<open>git \<close>, the agent
  route line otherwise, and the two are never the same line. While the output holds at
  most 119 lines nothing is dropped and exactly these two lines are added.
\<close>

theorem sendCommand_appends_echo_then_route:
  assumes "trim (inputLine p) \<noteq> []"
  shows "\<exists>route.
     output_lines (sendCommand p) =
       slice_last 119 (output_lines p) @ [js ''$ '' @ trim (inputLine p), route] \<and>
     (route = git_route_line (activeAgent p) \<or> route = agent_route_line (activeAgent p)) \<and>
     (route = git_route_line (activeAgent p) \<longleftrightarrow> startsWith (trim (inputLine p)) (js ''git '')) \<and>
     (route = agent_route_line (activeAgent p) \<longleftrightarrow>
        \<not> startsWith (trim (inputLine p)) (js ''git '')) \<and>
     suffix (slice_last 119 (output_lines p)) (output_lines p) \<and>
     length (output_lines (sendCommand p)) = min 119 (length (output_lines p)) + 2 \<and>
     (length (output_lines p) \<le> 119 \<longrightarrow>
        output_lines (sendCommand p) =
          output_lines p @ [js ''$ '' @ trim (inputLine p), route])"
proof (cases "startsWith (trim (inputLine p)) (js ''git '')")
  case True
  with sendCommand_accept [OF assms] route_lines_differ [of "activeAgent p" "activeAgent p"]
  show ?thesis
    by (simp add: suffix_slice_last length_slice_last slice_last_short)
next
  case False
  with sendCommand_accept [OF assms] route_lines_differ [of "activeAgent p" "activeAgent p"]
  show ?thesis
    by (simp add: suffix_slice_last length_slice_last slice_last_short)
qed

theorem sendCommand_appends_echo_then_route_witness:
  "trim (js ''git status'') \<noteq> [] \<and>
   output_lines (sendCommand \<lparr>isListening = False, activeAgent = js ''cursor'',
       inputLine = js ''git status'', output_lines = [js ''GitForge Terminal Terminator ready'']\<rparr>) =
     [js ''GitForge Terminal Terminator ready'', js ''$ git status'',
      0x26A1 # js '' libgit2 route queued via MCP (cursor)'']"
  using sendCommand_appends_echo_then_route [of "\<lparr>isListening = False,
       activeAgent = js ''cursor'', inputLine = js ''git status'',
       output_lines = [js ''GitForge Terminal Terminator ready'']\<rparr>"]
  by (simp add: panel_eval)


section \<open>The claims about the engine\<close>

subsection \<open>C5: observed statuses follow the state machine\<close>

text \<open>
  Claim C5. Whatever calls the engine receives, the statuses observed for a goal form
  one of the seven sequences of the state machine: every step is a transition of the
  machine, Pending is seen at most once and is the first status seen, at most one
  terminal status is seen and only as the last one, and Cancelled and Completed are
  never both seen. In every state of the engine, a transition requested for a goal that
  is terminal is refused with InvalidTransition and changes nothing; in particular a
  cancelled goal never becomes Completed.
\<close>

theorem observed_statuses_follow_state_machine:
  "(let obs = observed_statuses gid (emitted (run_engine calls empty_engine)) in
      obs \<in> set goal_lifecycles \<and>
      successively allowed obs \<and>
      count_list obs Pending \<le> 1 \<and> (obs \<noteq> [] \<longrightarrow> hd obs = Pending) \<and>
      length (filter is_terminal obs) \<le> 1 \<and>
      list_all (\<lambda>st. \<not> is_terminal st) (butlast obs) \<and>
      \<not> (Cancelled \<in> set obs \<and> Completed \<in> set obs)) \<and>
   (goals s gid = Some g \<and> is_terminal (status g) \<longrightarrow>
      transition now gid new_status res s = (Inl InvalidTransition, s))"
proof -
  have "engine_inv (run_engine calls empty_engine)"
    by (rule engine_inv_run) (rule engine_inv_empty)
  then have "observed_statuses gid (emitted (run_engine calls empty_engine)) \<in> set goal_lifecycles"
    by (rule engine_inv_lifecycle)
  from this lifecycle_facts [OF this] show ?thesis
    by (simp add: Let_def transition_from_terminal)
qed

theorem observed_statuses_follow_state_machine_witness:
  "observed_statuses 0 (emitted (run_engine
      [InsertGoal 1 \<lparr>kind = Git, agent_identifier = None, command_text = ''git status'',
         arguments = ''status''\<rparr>,
       Transition 2 0 Running None,
       Transition 3 0 Cancelled None,
       Transition 4 0 Completed (Some ''late'')] empty_engine)) =
     [Pending, Running, Cancelled] \<and>
   transition 4 0 Completed (Some ''late'')
     \<lparr>goals = [0 \<mapsto> \<lparr>goal_id = 0,
         task = \<lparr>kind = Git, agent_identifier = None, command_text = ''git status'',
           arguments = ''status''\<rparr>,
         status = Cancelled, created_at = 1, updated_at = 3, result = None\<rparr>],
       next_id = 1, emitted = [], cancel_requested = {}\<rparr> =
     (Inl InvalidTransition,
      \<lparr>goals = [0 \<mapsto> \<lparr>goal_id = 0,
         task = \<lparr>kind = Git, agent_identifier = None, command_text = ''git status'',
           arguments = ''status''\<rparr>,
         status = Cancelled, created_at = 1, updated_at = 3, result = None\<rparr>],
       next_id = 1, emitted = [], cancel_requested = {}\<rparr>)"
  using observed_statuses_follow_state_machine [of 0
      "[InsertGoal 1 \<lparr>kind = Git, agent_identifier = None, command_text = ''git status'',
         arguments = ''status''\<rparr>,
       Transition 2 0 Running None,
       Transition 3 0 Cancelled None,
       Transition 4 0 Completed (Some ''late'')]"
      "\<lparr>goals = [0 \<mapsto> \<lparr>goal_id = 0,
         task = \<lparr>kind = Git, agent_identifier = None, command_text = ''git status'',
           arguments = ''status''\<rparr>,
         status = Cancelled, created_at = 1, updated_at = 3, result = None\<rparr>],
       next_id = 1, emitted = [], cancel_requested = {}\<rparr>"
      "\<lparr>goal_id = 0,
         task = \<lparr>kind = Git, agent_identifier = None, command_text = ''git status'',
           arguments = ''status''\<rparr>,
         status = Cancelled, created_at = 1, updated_at = 3, result = None\<rparr>"
      4 Completed "Some ''late''"]
  by (simp add: engine_eval)

subsection \<open>C6: cancelling is idempotent\<close>

text \<open>
  Claim C6. For a goal that is already terminal, \<open>cancel_goal\<close> returns the stored
  goal without error and leaves the engine as it was, and so does a second call. For
  every identifier, a second \<open>cancel_goal\<close> returns what the first returned and leaves
  the engine as the first left it. The status of the goal after the call is its status
  before or a successor of it in the state machine (never a regression), the snapshot
  returned is the stored goal, and it is terminal unless the goal was Running. An
  unknown identifier gives NotFound and changes nothing.
\<close>

theorem cancel_goal_idempotent_on_terminal:
  "(goals s gid = Some g \<and> is_terminal (status g) \<longrightarrow>
      cancel_goal now gid s = (Inr g, s) \<and>
      cancel_goal later gid (snd (cancel_goal now gid s)) = (Inr g, s)) \<and>
   cancel_goal later gid (snd (cancel_goal now gid s)) =
     (fst (cancel_goal now gid s), snd (cancel_goal now gid s)) \<and>
   (goals s gid = Some g \<longrightarrow>
      (\<exists>g'. goals (snd (cancel_goal now gid s)) gid = Some g' \<and>
         fst (cancel_goal now gid s) = Inr g' \<and>
         (status g' = status g \<or> allowed (status g) (status g')) \<and>
         (status g \<noteq> Running \<longrightarrow> is_terminal (status g')))) \<and>
   (goals s gid = None \<longrightarrow> cancel_goal now gid s = (Inl NotFound, s))"
proof -
  have "goals s gid = Some g \<and> is_terminal (status g) \<longrightarrow>
      cancel_goal now gid s = (Inr g, s) \<and>
      cancel_goal later gid (snd (cancel_goal now gid s)) = (Inr g, s)"
    by (simp add: cancel_goal_terminal)
  moreover note cancel_goal_twice [of later gid now s]
  moreover have "goals s gid = Some g \<longrightarrow>
      (\<exists>g'. goals (snd (cancel_goal now gid s)) gid = Some g' \<and>
         fst (cancel_goal now gid s) = Inr g' \<and>
         (status g' = status g \<or> allowed (status g) (status g')) \<and>
         (status g \<noteq> Running \<longrightarrow> is_terminal (status g')))"
    using cancel_goal_forward [of s gid g now] by blast
  moreover have "goals s gid = None \<longrightarrow> cancel_goal now gid s = (Inl NotFound, s)"
    by (simp add: cancel_goal_def)
  ultimately show ?thesis
    by blast
qed

theorem cancel_goal_idempotent_on_terminal_witness:
  "is_terminal Completed \<and>
   cancel_goal 8 7
     \<lparr>goals = [7 \<mapsto> \<lparr>goal_id = 7,
         task = \<lparr>kind = Agent, agent_identifier = Some ''claude'',
           command_text = ''explain this diff'', arguments = ''explain this diff''\<rparr>,
         status = Completed, created_at = 1, updated_at = 5, result = Some ''done''\<rparr>],
       next_id = 8, emitted = [], cancel_requested = {}\<rparr> =
     (Inr \<lparr>goal_id = 7,
         task = \<lparr>kind = Agent, agent_identifier = Some ''claude'',
           command_text = ''explain this diff'', arguments = ''explain this diff''\<rparr>,
         status = Completed, created_at = 1, updated_at = 5, result = Some ''done''\<rparr>,
      \<lparr>goals = [7 \<mapsto> \<lparr>goal_id = 7,
         task = \<lparr>kind = Agent, agent_identifier = Some ''claude'',
           command_text = ''explain this diff'', arguments = ''explain this diff''\<rparr>,
         status = Completed, created_at = 1, updated_at = 5, result = Some ''done''\<rparr>],
       next_id = 8, emitted = [], cancel_requested = {}\<rparr>) \<and>
   cancel_goal 8 3
     \<lparr>goals = [7 \<mapsto> \<lparr>goal_id = 7,
         task = \<lparr>kind = Agent, agent_identifier = Some ''claude'',
           command_text = ''explain this diff'', arguments = ''explain this diff''\<rparr>,
         status = Completed, created_at = 1, updated_at = 5, result = Some ''done''\<rparr>],
       next_id = 8, emitted = [], cancel_requested = {}\<rparr> =
     (Inl NotFound,
      \<lparr>goals = [7 \<mapsto> \<lparr>goal_id = 7,
         task = \<lparr>kind = Agent, agent_identifier = Some ''claude'',
           command_text = ''explain this diff'', arguments = ''explain this diff''\<rparr>,
         status = Completed, created_at = 1, updated_at = 5, result = Some ''done''\<rparr>],
       next_id = 8, emitted = [], cancel_requested = {}\<rparr>)"
  using cancel_goal_idempotent_on_terminal [of
      "\<lparr>goals = [7 \<mapsto> \<lparr>goal_id = 7,
         task = \<lparr>kind = Agent, agent_identifier = Some ''claude'',
           command_text = ''explain this diff'', arguments = ''explain this diff''\<rparr>,
         status = Completed, created_at = 1, updated_at = 5, result = Some ''done''\<rparr>],
       next_id = 8, emitted = [], cancel_requested = {}\<rparr>"
      7
      "\<lparr>goal_id = 7,
         task = \<lparr>kind = Agent, agent_identifier = Some ''claude'',
           command_text = ''explain this diff'', arguments = ''explain this diff''\<rparr>,
         status = Completed, created_at = 1, updated_at = 5, result = Some ''done''\<rparr>"
      8 9]
    cancel_goal_idempotent_on_terminal [of
      "\<lparr>goals = [7 \<mapsto> \<lparr>goal_id = 7,
         task = \<lparr>kind = Agent, agent_identifier = Some ''claude'',
           command_text = ''explain this diff'', arguments = ''explain this diff''\<rparr>,
         status = Completed, created_at = 1, updated_at = 5, result = Some ''done''\<rparr>],
       next_id = 8, emitted = [], cancel_requested = {}\<rparr>"
      3
      "\<lparr>goal_id = 7,
         task = \<lparr>kind = Agent, agent_identifier = Some ''claude'',
           command_text = ''explain this diff'', arguments = ''explain this diff''\<rparr>,
         status = Completed, created_at = 1, updated_at = 5, result = Some ''done''\<rparr>"
      8 9]
  by simp

subsection \<open>C7: validation looks at the major version only\<close>

text \<open>
  Claim C7. Validation accepts an event exactly when its schema version is the
  consumer's major version, and rejects, with SchemaVersionMismatch, exactly when the
  two differ; the event's variant and payload fields have no influence on the verdict.
  Every event the engine emits has schema version 1, is accepted by a consumer of major
  version 1 and is processed or ignored by it, whatever variants the consumer knows.
\<close>

theorem validation_rejects_only_version_mismatch:
  "(validate_event ev m = Accept \<longleftrightarrow> schema_version ev = m) \<and>
   (validate_event ev m = Reject SchemaVersionMismatch \<longleftrightarrow> schema_version ev \<noteq> m) \<and>
   validate_event (ev\<lparr>variant := v, payload := data\<rparr>) m = validate_event ev m \<and>
   list_all
     (\<lambda>e. schema_version e = 1 \<and> validate_event e 1 = Accept \<and>
          consume 1 known e = (if variant e \<in> set known then Processed else Ignored))
     (emitted (run_engine calls empty_engine))"
proof -
  have "list_all
     (\<lambda>e. schema_version e = 1 \<and> validate_event e 1 = Accept \<and>
          consume 1 known e = (if variant e \<in> set known then Processed else Ignored))
     (emitted (run_engine calls empty_engine))"
    using versions_from_empty [of calls]
    by (auto simp add: list_all_iff validate_event_def consume_def)
  then show ?thesis
    by (simp add: validate_event_def)
qed

theorem validation_rejects_only_version_mismatch_witness:
  "validate_event \<lparr>schema_version = 1, subject_goal = None,
       variant = FutureVariant ''GoalPaused'', payload = [(''reason'', ''user'')]\<rparr> 1 = Accept \<and>
   consume 1 [] \<lparr>schema_version = 1, subject_goal = None,
       variant = FutureVariant ''GoalPaused'', payload = [(''reason'', ''user'')]\<rparr> = Ignored \<and>
   validate_event \<lparr>schema_version = 2, subject_goal = Some 0,
       variant = GoalCreated, payload = []\<rparr> 1 = Reject SchemaVersionMismatch \<and>
   emitted (run_engine [CreateGoal 1 (Some 4) \<lparr>kind = Git, agent_identifier = None,
       command_text = ''git status'', arguments = ''status''\<rparr>] empty_engine) =
     [\<lparr>schema_version = 1, subject_goal = Some 4, variant = GoalCreated, payload = []\<rparr>]"
  using validation_rejects_only_version_mismatch [of
      "\<lparr>schema_version = 1, subject_goal = None,
        variant = FutureVariant ''GoalPaused'', payload = [(''reason'', ''user'')]\<rparr>" 1]
    validation_rejects_only_version_mismatch [of
      "\<lparr>schema_version = 2, subject_goal = Some 0, variant = GoalCreated, payload = []\<rparr>" 1]
  by (simp add: engine_eval consume_def validate_event_def)


end
